theory Spec2Isabelle
  imports Main
begin

section \<open>JavaScript values, errors and promises\<close>

text \<open>
  The pool is a JavaScript module (index.js). A JavaScript error object is modelled by
  its \<open>name\<close> and its \<open>message\<close>; a value is one of the kinds the module handles:
  \<open>undefined\<close> (also a missing argument), primitives, plain objects, functions, error
  objects and database clients (a client is named by a number, its identity). A function
  is named by a number and carries what a call of it does: it returns, or it throws.
\<close>

datatype js_error = JsError (err_name: string) (err_message: string)

datatype call_result = Returns | Throws js_error

datatype js_value =
    Undefined
  | JNull
  | JBool bool
  | JNum int
  | JStr string
  | JObj "(string \<times> js_value) list"
  | JFun nat call_result
  | JErr js_error
  | JClient nat

text \<open>
  A promise is pending, fulfilled with a value or rejected with an error. A promise that
  never settles stays \<open>Pending\<close>.
\<close>

datatype 'a promise = Pending | Fulfilled 'a | Rejected js_error

text \<open>\<open>new Error(msg)\<close> and the \<open>TypeError\<close> the runtime throws.\<close>

definition new_Error :: "string \<Rightarrow> js_error" where
  "new_Error msg = JsError ''Error'' msg"

definition TypeError :: "string \<Rightarrow> js_error" where
  "TypeError msg = JsError ''TypeError'' msg"

text \<open>\<open>v instanceof Error\<close>.\<close>

fun instanceof_Error :: "js_value \<Rightarrow> bool" where
  "instanceof_Error (JErr e) = True"
| "instanceof_Error v = False"

text \<open>JavaScript truthiness, as \<open>!logger\<close> and \<open>options.name || ...\<close> test it.\<close>

fun truthy :: "js_value \<Rightarrow> bool" where
  "truthy Undefined = False"
| "truthy JNull = False"
| "truthy (JBool b) = b"
| "truthy (JNum n) = (n \<noteq> 0)"
| "truthy (JStr s) = (s \<noteq> [])"
| "truthy v = True"

text \<open>
  \<open>p.then(cb)\<close> and \<open>p.catch(cb)\<close>, with the state the callback works on passed
  explicitly. A callback that throws returns \<open>Rejected\<close>. A callback on a pending promise
  has not run.
\<close>

definition then_p :: "'a promise \<Rightarrow> ('a \<Rightarrow> 's \<Rightarrow> 'b promise \<times> 's) \<Rightarrow> 's \<Rightarrow> 'b promise \<times> 's" where
  "then_p pr cb s =
     (case pr of
        Pending \<Rightarrow> (Pending, s)
      | Rejected e \<Rightarrow> (Rejected e, s)
      | Fulfilled v \<Rightarrow> cb v s)"

definition catch_p :: "'a promise \<Rightarrow> (js_error \<Rightarrow> 's \<Rightarrow> 'a promise \<times> 's) \<Rightarrow> 's \<Rightarrow> 'a promise \<times> 's" where
  "catch_p pr cb s =
     (case pr of
        Pending \<Rightarrow> (Pending, s)
      | Fulfilled v \<Rightarrow> (Fulfilled v, s)
      | Rejected e \<Rightarrow> cb e s)"

section \<open>The database driver\<close>

text \<open>
  The driver (package \<open>pg\<close>) is an external collaborator: what its clients do is a
  parameter of the model. \<open>connect native pgOptions n\<close> is the outcome of
  \<open>client.connect\<close> for the client built by the \<open>n\<close>-th call of \<open>create\<close> (fulfilled: the
  callback got no error; rejected: the callback or the client's error event got the error;
  pending: neither happened). \<open>client_query c text\<close> is what the call
  \<open>client.query(text)\<close> does: it throws (\<open>Inl\<close>) or returns a promise (\<open>Inr\<close>). \<open>client_end c\<close>
  is what the call \<open>client.end(true, cb)\<close> does: it throws, or it returns and the callback
  is called during the call, later, or never.
\<close>

datatype end_result = EndCallsBackNow | EndCallsBackLater | EndSilent | EndThrows js_error

record pg_driver =
  has_native :: bool
  connect :: "bool \<Rightarrow> js_value \<Rightarrow> nat \<Rightarrow> unit promise"
  client_query :: "nat \<Rightarrow> js_value \<Rightarrow> js_error + js_value promise"
  client_end :: "nat \<Rightarrow> end_result"

text \<open>\<open>pgOptions.native === true\<close>; reading a property of \<open>undefined\<close> or \<open>null\<close> throws.\<close>

fun native_requested :: "js_value \<Rightarrow> js_error + bool" where
  "native_requested Undefined = Inl (TypeError ''Cannot read property native of undefined'')"
| "native_requested JNull = Inl (TypeError ''Cannot read property native of null'')"
| "native_requested (JObj kvs) = Inr (map_of kvs ''native'' = Some (JBool True))"
| "native_requested v = Inr False"

text \<open>
  \<open>create(pgOptions)\<close>, lines 24 to 55. The state is the number of calls of \<open>create\<close> made
  so far; the client a call builds is named by that number. An exception thrown in the
  promise's executor rejects the promise.
\<close>

definition create :: "pg_driver \<Rightarrow> js_value \<Rightarrow> nat \<Rightarrow> js_value promise \<times> nat" where
  "create drv pgOptions n =
     (case native_requested pgOptions of
        Inl e \<Rightarrow> (Rejected e, Suc n)
      | Inr native \<Rightarrow>
          if native \<and> \<not> has_native drv
          then (Rejected (JsError ''Error''
                  ''Native bindings not available. Make sure pg-native is installed.''), Suc n)
          else (case connect drv native pgOptions n of
                  Pending \<Rightarrow> (Pending, Suc n)
                | Rejected e \<Rightarrow> (Rejected e, Suc n)
                | Fulfilled u \<Rightarrow> (Fulfilled (JClient n), Suc n)))"

section \<open>Retrying\<close>

text \<open>
  Modelled from the spec: the retry combinator (package \<open>retry-as-promised\<close>, required at
  line 4 of index.js) is not among the sources. Section 4.1: on failure the call is
  retried, up to the maximal number of attempts. \<open>retry current max_tries callback\<close> runs
  the callback; when its promise is rejected and fewer than \<open>max_tries\<close> attempts have been
  made it runs the callback again, otherwise it ends as the callback's promise did.
\<close>

function retry :: "nat \<Rightarrow> nat \<Rightarrow> ('s \<Rightarrow> 'a promise \<times> 's) \<Rightarrow> 's \<Rightarrow> 'a promise \<times> 's" where
  "retry current max_tries callback s =
     (case callback s of
        (Rejected e, s') \<Rightarrow>
          if current < max_tries then retry (Suc current) max_tries callback s'
          else (Rejected e, s')
      | (r, s') \<Rightarrow> (r, s'))"
  by pat_completeness auto
termination
  by (relation "measure (\<lambda>(current, max_tries, callback, s). max_tries - current)") auto

declare retry.simps [simp del]

section \<open>The logger\<close>

text \<open>
  What the module does to the world, in order: the calls it makes on the pool engine, on a
  client and on the logger. (Calls of the \<open>debug\<close> package only print and are left out.)
\<close>

datatype effect =
    EngineAcquire js_value
  | EngineRelease js_value
  | EngineDestroy js_value
  | EngineDrain
  | ClientQuery nat js_value
  | ClientEnd nat
  | LoggerCall nat string "js_value list"

text \<open>
  The logger of a pool is the object \<open>Object.assign\<close> makes: the five methods \<open>log\<close>,
  \<open>debug\<close>, \<open>info\<close>, \<open>warn\<close> and \<open>error\<close>, each the property of that name of the given
  logger, whatever its value, or the no-op default when the given logger has none. (Other
  properties of the given logger are copied too; the module reads none of them.)
\<close>

record logger =
  log :: js_value
  debug :: js_value
  info :: js_value
  warn :: js_value
  error :: js_value

text \<open>The default \<open>function () {}\<close>: the function 0, which returns.\<close>

definition noop :: js_value where
  "noop = JFun 0 Returns"

text \<open>
  The own enumerable properties \<open>Object.assign\<close> copies. Of the values of the model only a
  plain object has properties of the five names.
\<close>

fun own_property :: "js_value \<Rightarrow> string \<Rightarrow> js_value option" where
  "own_property (JObj kvs) k = map_of kvs k"
| "own_property v k = None"

definition logger_method :: "js_value \<Rightarrow> string \<Rightarrow> js_value" where
  "logger_method lg m = (case own_property lg m of Some v \<Rightarrow> v | None \<Rightarrow> noop)"

text \<open>\<open>injectLogger\<close>, lines 10 to 22: the defaults, overridden by the given logger's own.\<close>

definition injectLogger :: "js_value \<Rightarrow> logger" where
  "injectLogger logger0 =
     (let lg = (if \<not> truthy logger0 then JObj [] else logger0)
      in \<lparr> log = logger_method lg ''log'',
           debug = logger_method lg ''debug'',
           info = logger_method lg ''info'',
           warn = logger_method lg ''warn'',
           error = logger_method lg ''error'' \<rparr>)"

text \<open>
  A call \<open>this.logger.m(msg, args)\<close>, where \<open>f\<close> is the value of the property \<open>m\<close>: the
  effects of the call and the error it throws, if any. A function is called, and returns
  or throws as it does; calling any other value throws a \<open>TypeError\<close>.
\<close>

definition call_logger :: "js_value \<Rightarrow> string \<Rightarrow> string \<Rightarrow> js_value list \<Rightarrow> effect list \<times> js_error option" where
  "call_logger f m msg args =
     (case f of
        JFun k Returns \<Rightarrow> ([LoggerCall k msg args], None)
      | JFun k (Throws e) \<Rightarrow> ([LoggerCall k msg args], Some e)
      | _ \<Rightarrow> ([], Some (TypeError (''this.logger.'' @ m @ '' is not a function''))))"

text \<open>The value is a function that returns when called.\<close>

fun returns :: "js_value \<Rightarrow> bool" where
  "returns (JFun k Returns) = True"
| "returns v = False"

section \<open>The pool engine's interface\<close>

text \<open>
  The pool engine (package \<open>generic-pool\<close>, the object \<open>this.pool\<close>) is taken as a
  parameter: a state of any type \<open>'e\<close> and the operations the module calls on it, each
  returning the promise it answers with and the new state.
\<close>

record 'e pool_core =
  pool_acquire :: "js_value \<Rightarrow> 'e \<Rightarrow> js_value promise \<times> 'e"
  pool_release :: "js_value \<Rightarrow> 'e \<Rightarrow> unit promise \<times> 'e"
  pool_size :: "'e \<Rightarrow> nat"
  pool_available :: "'e \<Rightarrow> nat"
  pool_pending :: "'e \<Rightarrow> nat"

record 'e factory =
  factory_create :: "nat \<Rightarrow> js_value promise \<times> nat"
  factory_destroy :: "js_value \<Rightarrow> 'e \<Rightarrow> unit promise \<times> effect list"

record 'e pool_engine = "'e pool_core" +
  createPool :: "'e factory \<Rightarrow> js_value \<Rightarrow> 'e"
  pool_destroy :: "js_value \<Rightarrow> 'e \<Rightarrow> unit promise \<times> 'e"
  pool_drain :: "('e \<Rightarrow> unit promise \<times> 'e) \<Rightarrow> 'e \<Rightarrow> unit promise \<times> 'e"
  pool_clear :: "'e \<Rightarrow> unit promise \<times> 'e"

section \<open>The factory\<close>

text \<open>
  The callback given to \<open>retry\<close>, lines 83 to 95. Its state is the variable
  \<open>createAttempts\<close> of the enclosing call and the number of calls of \<open>create\<close> made so far.
\<close>

definition create_attempt :: "pg_driver \<Rightarrow> js_value \<Rightarrow> nat \<times> nat \<Rightarrow> js_value promise \<times> (nat \<times> nat)" where
  "create_attempt drv pgOptions = (\<lambda>(createAttempts0, n).
     let createAttempts = createAttempts0 + 1 in
     if createAttempts > 3
     then (Fulfilled (JErr (new_Error ''CONN_FAILED'')), (0, n))
     else (case create drv pgOptions n of (r, n') \<Rightarrow> (r, (createAttempts, n'))))"

text \<open>\<open>factory.create\<close>, lines 76 to 100: \<open>createAttempts\<close> starts at 0, \<open>max\<close> is 10.\<close>

definition create_with_retry :: "pg_driver \<Rightarrow> js_value \<Rightarrow> nat \<Rightarrow> js_value promise \<times> nat" where
  "create_with_retry drv pgOptions n =
     (case retry 1 10 (create_attempt drv pgOptions) (0, n) of (r, (createAttempts, n')) \<Rightarrow> (r, n'))"

text \<open>
  \<open>client.end(true, cb)\<close> on the value the engine hands to \<open>destroy\<close>: \<open>Inl\<close> is an exception
  thrown by the call, \<open>Inr\<close> a call that returned, with the time at which the callback is
  called. Only a client has the method \<open>end\<close>.
\<close>

datatype callback = CalledNow | CalledLater | NeverCalled

fun call_end :: "pg_driver \<Rightarrow> js_value \<Rightarrow> js_error + callback" where
  "call_end drv (JClient c) =
     (case client_end drv c of
        EndThrows e \<Rightarrow> Inl e
      | EndCallsBackNow \<Rightarrow> Inr CalledNow
      | EndCallsBackLater \<Rightarrow> Inr CalledLater
      | EndSilent \<Rightarrow> Inr NeverCalled)"
| "call_end drv Undefined = Inl (TypeError ''Cannot read property end of undefined'')"
| "call_end drv JNull = Inl (TypeError ''Cannot read property end of null'')"
| "call_end drv v = Inl (TypeError ''client.end is not a function'')"

fun end_effect :: "js_value \<Rightarrow> effect list" where
  "end_effect (JClient c) = [ClientEnd c]"
| "end_effect v = []"

text \<open>The promise of \<open>destroy\<close> when nothing is thrown out of its executor.\<close>

fun resolved_by :: "callback \<Rightarrow> unit promise" where
  "resolved_by CalledNow = Fulfilled ()"
| "resolved_by CalledLater = Fulfilled ()"
| "resolved_by NeverCalled = Pending"

text \<open>
  \<open>factory.destroy\<close>, lines 101 to 118. The executor is given \<open>resolve\<close> only. The \<open>try\<close>
  block calls \<open>client.end\<close> and then \<open>this.logger.log\<close>; what either throws is caught, and
  the \<open>catch\<close> block calls \<open>this.logger.error\<close>. What that call throws leaves the executor:
  it rejects the promise, unless the callback of \<open>client.end\<close> has resolved it before.
\<close>

definition destroy_client ::
  "('e, 'm) pool_core_scheme \<Rightarrow> pg_driver \<Rightarrow> logger \<Rightarrow> js_value \<Rightarrow> 'e \<Rightarrow> unit promise \<times> effect list" where
  "destroy_client eng drv lg client e =
     (case call_end drv client of
        Inl err \<Rightarrow>
          (case call_logger (error lg) ''error'' ''Failed to destroy connection'' [JErr err] of
             (fx, thrown) \<Rightarrow>
               (case thrown of None \<Rightarrow> Pending | Some e' \<Rightarrow> Rejected e',
                end_effect client @ fx))
      | Inr cb \<Rightarrow>
          (case call_logger (log lg) ''log''
                  ''Client conn closed. Available count : %s. Pool size: %s''
                  [JNum (int (pool_available eng e)), JNum (int (pool_size eng e))] of
             (fx1, None) \<Rightarrow> (resolved_by cb, end_effect client @ fx1)
           | (fx1, Some err) \<Rightarrow>
               (case call_logger (error lg) ''error'' ''Failed to destroy connection'' [JErr err] of
                  (fx2, thrown) \<Rightarrow>
                    (case thrown of
                       None \<Rightarrow> resolved_by cb
                     | Some e' \<Rightarrow> if cb = CalledNow then Fulfilled () else Rejected e',
                     end_effect client @ fx1 @ fx2))))"

section \<open>The pool object\<close>

text \<open>
  A \<open>PgPool\<close> object: the four fields the constructor sets, the engine's state behind
  \<open>this.pool\<close>, and the effects made through this object so far.
\<close>

record 'e pgpool =
  name :: js_value
  pgOptions :: js_value
  poolOptions :: js_value
  logger :: logger
  pool :: 'e
  trace :: "effect list"

text \<open>
  An options object is a map from keys to values. \<open>pick\<close> (package \<open>lodash.pick\<close>) keeps the
  listed keys; reading a key that is absent gives \<open>undefined\<close>.
\<close>

type_synonym options = "string \<rightharpoonup> js_value"

definition pick :: "options \<Rightarrow> string list \<Rightarrow> options" where
  "pick obj keys = (\<lambda>k. if k \<in> set keys then obj k else None)"

definition get_prop :: "options \<Rightarrow> string \<Rightarrow> js_value" where
  "get_prop obj k = (case obj k of None \<Rightarrow> Undefined | Some v \<Rightarrow> v)"

text \<open>
  The constructor, lines 66 to 133. \<open>rnd\<close> is the string
  \<open>Math.random().toString(36).substr(2, 10)\<close>, drawn when the options give no name.
\<close>

definition PgPool :: "'e pool_engine \<Rightarrow> pg_driver \<Rightarrow> string \<Rightarrow> options \<Rightarrow> 'e pgpool" where
  "PgPool eng drv rnd options0 =
     (let options = pick options0 [''name'', ''pgOptions'', ''poolOptions'', ''logger''];
          lg = injectLogger (get_prop options ''logger'');
          fac = \<lparr> factory_create = create_with_retry drv (get_prop options ''pgOptions''),
                  factory_destroy = destroy_client eng drv lg \<rparr>
      in \<lparr> name = (if truthy (get_prop options ''name'') then get_prop options ''name''
                   else JStr (''pgPool-'' @ rnd)),
           pgOptions = get_prop options ''pgOptions'',
           poolOptions = get_prop options ''poolOptions'',
           logger = lg,
           pool = createPool eng fac (get_prop options ''poolOptions''),
           trace = [] \<rparr>)"

text \<open>
  The handlers of the engine's error events, lines 125 to 132: the new state and the error
  the handler throws, if the logger's method throws.
\<close>

definition on_factoryCreateError :: "'e pgpool \<Rightarrow> js_error \<Rightarrow> 'e pgpool \<times> js_error option" where
  "on_factoryCreateError p e =
     (case call_logger (error (logger p)) ''error'' ''Errored while connecting Postgres'' [JErr e] of
        (fx, thrown) \<Rightarrow> (p\<lparr>trace := trace p @ fx\<rparr>, thrown))"

definition on_factoryDestroyError :: "'e pgpool \<Rightarrow> js_error \<Rightarrow> 'e pgpool \<times> js_error option" where
  "on_factoryDestroyError p e =
     (case call_logger (error (logger p)) ''error'' ''Errored while destroying Postgres conn'' [JErr e] of
        (fx, thrown) \<Rightarrow> (p\<lparr>trace := trace p @ fx\<rparr>, thrown))"

section \<open>The operations\<close>

text \<open>Calls on the engine: the state behind \<open>this.pool\<close> changes and the call is recorded.\<close>

definition engine_acquire_call ::
  "('e, 'm) pool_core_scheme \<Rightarrow> js_value \<Rightarrow> 'e pgpool \<Rightarrow> js_value promise \<times> 'e pgpool" where
  "engine_acquire_call eng priority p =
     (case pool_acquire eng priority (pool p) of
        (pr, e') \<Rightarrow> (pr, p\<lparr>pool := e', trace := trace p @ [EngineAcquire priority]\<rparr>))"

definition engine_release_call ::
  "('e, 'm) pool_core_scheme \<Rightarrow> js_value \<Rightarrow> 'e pgpool \<Rightarrow> unit promise \<times> 'e pgpool" where
  "engine_release_call eng client p =
     (case pool_release eng client (pool p) of
        (pr, e') \<Rightarrow> (pr, p\<lparr>pool := e', trace := trace p @ [EngineRelease client]\<rparr>))"

text \<open>
  \<open>client.query(queryString)\<close> on the value the engine yielded. On a client the call does
  what the driver says: it throws or returns a promise. Any other value has no method
  \<open>query\<close>, and the call throws.
\<close>

fun call_query :: "pg_driver \<Rightarrow> js_value \<Rightarrow> js_value \<Rightarrow> js_error + js_value promise" where
  "call_query drv (JClient c) queryString = client_query drv c queryString"
| "call_query drv Undefined queryString = Inl (TypeError ''Cannot read property query of undefined'')"
| "call_query drv JNull queryString = Inl (TypeError ''Cannot read property query of null'')"
| "call_query drv v queryString = Inl (TypeError ''client.query is not a function'')"

fun query_effect :: "js_value \<Rightarrow> js_value \<Rightarrow> effect list" where
  "query_effect (JClient c) queryString = [ClientQuery c queryString]"
| "query_effect v queryString = []"

text \<open>
  \<open>query\<close>, lines 142 to 160. What the call \<open>client.query(queryString)\<close> throws leaves the
  handler of the acquire before \<open>then\<close> and \<open>catch\<close> are reached. The promise
  \<open>this.pool.release(client)\<close> returns is dropped in both handlers. The handler of \<open>catch\<close>
  also sees what the handler of \<open>then\<close> throws; it releases, calls \<open>this.logger.error\<close>, and
  throws the error again if that call has not thrown.
\<close>

definition query :: "('e, 'm) pool_core_scheme \<Rightarrow> pg_driver \<Rightarrow> js_value \<Rightarrow> 'e pgpool \<Rightarrow> js_value promise \<times> 'e pgpool" where
  "query eng drv queryString p =
     (case engine_acquire_call eng Undefined p of
        (acquired, p1) \<Rightarrow>
          then_p acquired
            (\<lambda>client s.
               let s1 = s\<lparr>trace := trace s @ query_effect client queryString\<rparr> in
               case call_query drv client queryString of
                 Inl thrown \<Rightarrow> (Rejected thrown, s1)
               | Inr answered \<Rightarrow>
                   (case then_p answered
                           (\<lambda>result t. (Fulfilled result, snd (engine_release_call eng client t))) s1 of
                      (settled, s2) \<Rightarrow>
                        catch_p settled
                          (\<lambda>err t.
                             let t1 = snd (engine_release_call eng client t) in
                             case call_logger (error (logger t1)) ''error'' ''Errored query'' [JErr err] of
                               (fx, thrown) \<Rightarrow>
                                 (Rejected (case thrown of None \<Rightarrow> err | Some e' \<Rightarrow> e'),
                                  t1\<lparr>trace := trace t1 @ fx\<rparr>))
                          s2))
            p1)"

text \<open>
  \<open>acquire\<close>, lines 169 to 180. \<open>on_acquired\<close> is the handler given to \<open>then\<close>: when the
  value the engine yielded is an \<open>Error\<close> it calls \<open>this.logger.error\<close> and then throws the
  value; what the logger's call throws is thrown instead.
\<close>

definition on_acquired :: "js_value \<Rightarrow> 'e pgpool \<Rightarrow> js_value promise \<times> 'e pgpool" where
  "on_acquired client s =
     (case client of
        JErr e \<Rightarrow>
          (case call_logger (error (logger s)) ''error'' ''Couldn't acquire connection to %j''
                  [pgOptions s] of
             (fx, thrown) \<Rightarrow>
               (Rejected (case thrown of None \<Rightarrow> e | Some e' \<Rightarrow> e'),
                s\<lparr>trace := trace s @ fx\<rparr>))
      | _ \<Rightarrow> (Fulfilled client, s))"

definition acquire :: "('e, 'm) pool_core_scheme \<Rightarrow> js_value \<Rightarrow> 'e pgpool \<Rightarrow> js_value promise \<times> 'e pgpool" where
  "acquire eng priority p =
     (case engine_acquire_call eng priority p of
        (acquired, p1) \<Rightarrow> then_p acquired on_acquired p1)"

text \<open>\<open>release\<close>, lines 188 to 190; a call without an argument passes \<open>undefined\<close>.\<close>

definition release :: "('e, 'm) pool_core_scheme \<Rightarrow> js_value \<Rightarrow> 'e pgpool \<Rightarrow> unit promise \<times> 'e pgpool" where
  "release eng client p = engine_release_call eng client p"

text \<open>\<open>destroy\<close>, lines 198 to 200.\<close>

definition destroy :: "'e pool_engine \<Rightarrow> js_value \<Rightarrow> 'e pgpool \<Rightarrow> unit promise \<times> 'e pgpool" where
  "destroy eng client p =
     (case pool_destroy eng client (pool p) of
        (pr, e') \<Rightarrow> (pr, p\<lparr>pool := e', trace := trace p @ [EngineDestroy client]\<rparr>))"

text \<open>\<open>drain\<close>, lines 207 to 209: the engine's \<open>drain\<close> is given a callback that clears the pool.\<close>

definition drain :: "'e pool_engine \<Rightarrow> 'e pgpool \<Rightarrow> unit promise \<times> 'e pgpool" where
  "drain eng p =
     (case pool_drain eng (pool_clear eng) (pool p) of
        (pr, e') \<Rightarrow> (pr, p\<lparr>pool := e', trace := trace p @ [EngineDrain]\<rparr>))"

text \<open>The accessors, lines 216 to 277.\<close>

definition getName :: "'e pgpool \<Rightarrow> js_value" where
  "getName p = name p"

definition getPgOptions :: "'e pgpool \<Rightarrow> js_value" where
  "getPgOptions p = pgOptions p"

definition getPoolOptions :: "'e pgpool \<Rightarrow> js_value" where
  "getPoolOptions p = poolOptions p"

definition getPoolSize :: "('e, 'm) pool_core_scheme \<Rightarrow> 'e pgpool \<Rightarrow> nat" where
  "getPoolSize eng p = pool_size eng (pool p)"

definition availableCount :: "('e, 'm) pool_core_scheme \<Rightarrow> 'e pgpool \<Rightarrow> nat" where
  "availableCount eng p = pool_available eng (pool p)"

definition pendingCount :: "('e, 'm) pool_core_scheme \<Rightarrow> 'e pgpool \<Rightarrow> nat" where
  "pendingCount eng p = pool_pending eng (pool p)"

record pool_status =
  status_name :: js_value
  status_size :: nat
  status_available :: nat
  status_pending :: nat

definition status :: "('e, 'm) pool_core_scheme \<Rightarrow> 'e pgpool \<Rightarrow> pool_status" where
  "status eng p =
     \<lparr> status_name = name p,
       status_size = pool_size eng (pool p),
       status_available = pool_available eng (pool p),
       status_pending = pool_pending eng (pool p) \<rparr>"

text \<open>The resources a trace gives back to the engine, in order.\<close>

fun releases :: "effect list \<Rightarrow> js_value list" where
  "releases [] = []"
| "releases (EngineRelease v # es) = v # releases es"
| "releases (e # es) = releases es"

section \<open>The pool engine, from the specification\<close>

text \<open>
  Modelled from the spec: the pool engine (package \<open>generic-pool\<close>, required at line 3 of
  index.js) is not among the sources. Sections 3 and 4.2 of the spec describe it, and the
  definitions below follow their words: a configuration with \<open>min\<close>, \<open>max\<close> and the acquire
  timeout (0: wait indefinitely); Idle and Active resources; resources being created, each
  for the acquire that waits for it or for none (the eager warming to \<open>min\<close>); the queue of
  Pending Requests with their priorities; and, for each request, the outcomes it was given.
  The size counts the idle, the active and the being-created resources (section 3).
  Creation is asynchronous: the factory's answer is an event of its own.
  Destroy and drain are not part of this model.
\<close>

record pool_config =
  cfg_min :: nat
  cfg_max :: nat
  cfg_acquireTimeout :: nat

record engine =
  config :: pool_config
  idle :: "nat list"
  active :: "nat list"
  creating :: "nat option list"
  waiting :: "(nat \<times> nat) list"
  settled :: "(nat \<times> js_value promise) list"
  next_request :: nat

text \<open>
  Modelled from the spec: construction (section 3). The pool starts to create \<open>min\<close>
  resources, for no caller; none is idle or active yet.
\<close>

definition engine_create :: "pool_config \<Rightarrow> engine" where
  "engine_create cfg =
     \<lparr> config = cfg, idle = [], active = [], creating = replicate (cfg_min cfg) None,
       waiting = [], settled = [], next_request = 0 \<rparr>"

text \<open>
  Modelled from the spec: the counters (section 3). The size is the total of idle, active
  and being-created resources; available is the idle count; pending is the number of
  queued requests.
\<close>

definition engine_size :: "engine \<Rightarrow> nat" where
  "engine_size s = length (idle s) + length (active s) + length (creating s)"

definition engine_available :: "engine \<Rightarrow> nat" where
  "engine_available s = length (idle s)"

definition engine_pending :: "engine \<Rightarrow> nat" where
  "engine_pending s = length (waiting s)"

definition engine_borrowed :: "engine \<Rightarrow> nat" where
  "engine_borrowed s = length (active s)"

text \<open>
  Modelled from the spec: the order of service (section 4.2). The pending request served
  next is the one of highest priority, the earliest among equals. The spec does not say
  which numbers are the higher priorities: here the greater number is, and a request
  without a priority has priority 0.
\<close>

fun priority_of :: "js_value \<Rightarrow> nat" where
  "priority_of (JNum k) = nat k"
| "priority_of v = 0"

fun next_waiting :: "(nat \<times> nat) list \<Rightarrow> (nat \<times> nat) option" where
  "next_waiting [] = None"
| "next_waiting (w # ws) =
     (case next_waiting ws of
        None \<Rightarrow> Some w
      | Some w' \<Rightarrow> if snd w < snd w' then Some w' else Some w)"

text \<open>
  Modelled from the spec: a resource that is free (section 4.2, \<open>release\<close>) is handed to
  the next pending request, which is resolved with it, and is marked Idle when no request
  waits.
\<close>

definition give :: "nat \<Rightarrow> engine \<Rightarrow> engine" where
  "give r s =
     (case next_waiting (waiting s) of
        None \<Rightarrow> s\<lparr>idle := idle s @ [r]\<rparr>
      | Some w \<Rightarrow>
          s\<lparr>waiting := remove1 w (waiting s),
            active := active s @ [r],
            settled := settled s @ [(fst w, Fulfilled (JClient r))]\<rparr>)"

text \<open>
  Modelled from the spec: \<open>acquire\<close> (section 4.2). An idle resource is popped and marked
  Active; with none idle and the size below \<open>max\<close> a creation is triggered for the caller;
  otherwise the caller is enqueued as a Pending Request. Every call is a request with an
  identity of its own.
\<close>

definition engine_acquire :: "js_value \<Rightarrow> engine \<Rightarrow> js_value promise \<times> engine" where
  "engine_acquire priority s =
     (let q = next_request s; s0 = s\<lparr>next_request := Suc q\<rparr> in
      case idle s of
        r # rs \<Rightarrow>
          (Fulfilled (JClient r),
           s0\<lparr>idle := rs, active := active s @ [r],
              settled := settled s @ [(q, Fulfilled (JClient r))]\<rparr>)
      | [] \<Rightarrow>
          if engine_size s < cfg_max (config s)
          then (Pending, s0\<lparr>creating := creating s @ [Some q]\<rparr>)
          else (Pending, s0\<lparr>waiting := waiting s @ [(q, priority_of priority)]\<rparr>))"

text \<open>
  Modelled from the spec: the end of a creation (section 4.2). The factory answers the
  \<open>i\<close>-th creation in flight, with a resource or with its terminal error. On success the
  resource is marked Active for the caller that waits for it, or is free; on failure it is
  discarded and the waiting caller is resolved with the error.
\<close>

definition engine_create_done :: "nat \<Rightarrow> js_error + nat \<Rightarrow> engine \<Rightarrow> engine" where
  "engine_create_done i outcome s =
     (if length (creating s) \<le> i then s
      else
        (let owner = creating s ! i;
             s0 = s\<lparr>creating := take i (creating s) @ drop (Suc i) (creating s)\<rparr> in
         case outcome of
           Inr r \<Rightarrow>
             (case owner of
                Some q \<Rightarrow>
                  s0\<lparr>active := active s @ [r],
                     settled := settled s @ [(q, Fulfilled (JClient r))]\<rparr>
              | None \<Rightarrow> give r s0)
         | Inl e \<Rightarrow>
             (case owner of
                Some q \<Rightarrow> s0\<lparr>settled := settled s @ [(q, Fulfilled (JErr e))]\<rparr>
              | None \<Rightarrow> s0)))"

text \<open>
  Modelled from the spec: \<open>release\<close> (section 4.2 and section 7). The resource must be
  Active in this pool, otherwise the call fails with the message below and changes nothing;
  a released resource is free.
\<close>

definition not_member :: js_error where
  "not_member = new_Error ''Resource not currently part of this pool''"

definition engine_release :: "js_value \<Rightarrow> engine \<Rightarrow> unit promise \<times> engine" where
  "engine_release client s =
     (case client of
        JClient r \<Rightarrow>
          if r \<in> set (active s)
          then (Fulfilled (), give r (s\<lparr>active := remove1 r (active s)\<rparr>))
          else (Rejected not_member, s)
      | _ \<Rightarrow> (Rejected not_member, s))"

text \<open>
  Modelled from the spec: the acquire timeout (sections 4.2 and 5). The timeout of request
  \<open>q\<close> elapses. A request still waiting is resolved with the timeout failure and leaves the
  queue (or the creation it waited for, whose resource will be free); on a request already
  resolved the timeout is a no-op. With a timeout of 0 requests wait indefinitely.
\<close>

definition timeout_error :: js_error where
  "timeout_error = JsError ''TimeoutError'' ''acquire waited past acquireTimeoutMillis''"

definition engine_timeout :: "nat \<Rightarrow> engine \<Rightarrow> engine" where
  "engine_timeout q s =
     (if cfg_acquireTimeout (config s) = 0 then s
      else if q \<in> fst ` set (waiting s)
      then s\<lparr>waiting := filter (\<lambda>w. fst w \<noteq> q) (waiting s),
             settled := settled s @ [(q, Rejected timeout_error)]\<rparr>
      else if Some q \<in> set (creating s)
      then s\<lparr>creating := map (\<lambda>c. if c = Some q then None else c) (creating s),
             settled := settled s @ [(q, Rejected timeout_error)]\<rparr>
      else s)"

text \<open>Modelled from the spec: the engine as the module sees it, behind \<open>this.pool\<close>.\<close>

definition spec_engine :: "engine pool_core" where
  "spec_engine =
     \<lparr> pool_acquire = engine_acquire, pool_release = engine_release,
       pool_size = engine_size, pool_available = engine_available,
       pool_pending = engine_pending \<rparr>"

text \<open>
  What happens to a pool over this engine: calls of \<open>acquire\<close> and \<open>release\<close> through the
  module, answers of the factory, and timeouts.
\<close>

datatype pool_op =
    Acquire js_value
  | Release js_value
  | CreateDone nat "js_error + nat"
  | Timeout nat

fun step :: "pool_op \<Rightarrow> engine pgpool \<Rightarrow> engine pgpool" where
  "step (Acquire priority) p = snd (acquire spec_engine priority p)"
| "step (Release client) p = snd (release spec_engine client p)"
| "step (CreateDone i outcome) p = p\<lparr>pool := engine_create_done i outcome (pool p)\<rparr>"
| "step (Timeout q) p = p\<lparr>pool := engine_timeout q (pool p)\<rparr>"

fun run :: "pool_op list \<Rightarrow> engine pgpool \<Rightarrow> engine pgpool" where
  "run [] p = p"
| "run (x # xs) p = run xs (step x p)"

text \<open>The same steps on the engine's state alone.\<close>

fun engine_step :: "pool_op \<Rightarrow> engine \<Rightarrow> engine" where
  "engine_step (Acquire priority) s = snd (engine_acquire priority s)"
| "engine_step (Release client) s = snd (engine_release client s)"
| "engine_step (CreateDone i outcome) s = engine_create_done i outcome s"
| "engine_step (Timeout q) s = engine_timeout q s"

text \<open>The outcomes request \<open>q\<close> was given so far.\<close>

definition outcomes_of :: "nat \<Rightarrow> engine \<Rightarrow> js_value promise list" where
  "outcomes_of q s = map snd (filter (\<lambda>x. fst x = q) (settled s))"

text \<open>
  The pool object the constructor builds from options that give \<open>poolOptions\<close> only, over
  an engine that read the configuration \<open>cfg\<close> from them.
\<close>

definition fresh_pool :: "pool_config \<Rightarrow> engine pgpool" where
  "fresh_pool cfg =
     \<lparr> name = JStr ''pgPool-0'', pgOptions = Undefined,
       poolOptions = JObj [(''min'', JNum (int (cfg_min cfg))), (''max'', JNum (int (cfg_max cfg))),
                           (''acquireTimeoutMillis'', JNum (int (cfg_acquireTimeout cfg)))],
       logger = injectLogger Undefined, pool = engine_create cfg, trace = [] \<rparr>"


text \<open>
  The bookkeeping of requests is well formed: a queued request has an identity already
  issued, has been given no outcome and waits for no creation; queued requests are
  distinct; outcomes and creations belong to identities already issued.
\<close>

definition requests_wf :: "engine \<Rightarrow> bool" where
  "requests_wf s \<longleftrightarrow>
     (\<forall>q \<in> fst ` set (waiting s).
        q < next_request s \<and> outcomes_of q s = [] \<and> Some q \<notin> set (creating s))
   \<and> distinct (map fst (waiting s))
   \<and> (\<forall>q \<in> fst ` set (settled s). q < next_request s)
   \<and> (\<forall>q. Some q \<in> set (creating s) \<longrightarrow> q < next_request s)"

text \<open>Request \<open>q\<close> was issued and waits no longer, neither in the queue nor for a creation.\<close>

definition finished :: "nat \<Rightarrow> engine \<Rightarrow> bool" where
  "finished q s \<longleftrightarrow>
     q < next_request s \<and> q \<notin> fst ` set (waiting s) \<and> Some q \<notin> set (creating s)"

text \<open>
  Modelled from the spec: the promise the engine's \<open>acquire\<close> returned for request \<open>q\<close>, as
  it stands in a state. It is pending until the request is given an outcome and is settled
  by the first one: a request is resumed exactly once (section 5).
\<close>

definition engine_promise :: "nat \<Rightarrow> engine \<Rightarrow> js_value promise" where
  "engine_promise q s = (case outcomes_of q s of [] \<Rightarrow> Pending | out # outs \<Rightarrow> out)"

text \<open>
  The promise the module's \<open>acquire\<close> returned for request \<open>q\<close>, as it stands in a state.
  \<open>acquire\<close> chains its handler on the engine's promise, so its own promise is what
  \<open>acquire\<close> makes of the engine's promise in its present state: \<open>engine_view q\<close> is the
  engine with the promise of request \<open>q\<close> read that way.
\<close>

definition engine_view :: "nat \<Rightarrow> engine pool_core" where
  "engine_view q = spec_engine\<lparr>pool_acquire := (\<lambda>priority s. (engine_promise q s, s))\<rparr>"

definition acquire_promise :: "nat \<Rightarrow> engine pgpool \<Rightarrow> js_value promise" where
  "acquire_promise q p = fst (acquire (engine_view q) Undefined p)"



section \<open>Concrete collaborators\<close>

text \<open>
  Collaborators to run the operations on concrete inputs. The counting engine answers every
  acquire with the given promise; its state is the number of resources it has handed out
  and not got back. The driver answers every connection, every query and every \<open>end\<close> in the
  given way.
\<close>

definition counting_engine :: "js_value promise \<Rightarrow> nat pool_engine" where
  "counting_engine yielded =
     \<lparr> pool_acquire = (\<lambda>priority k. (yielded, Suc k)),
       pool_release = (\<lambda>client k. (Fulfilled (), k - 1)),
       pool_size = (\<lambda>k. k),
       pool_available = (\<lambda>k. 0),
       pool_pending = (\<lambda>k. 0),
       createPool = (\<lambda>fac opts. 0),
       pool_destroy = (\<lambda>client k. (Fulfilled (), k - 1)),
       pool_drain = (\<lambda>cb k. cb k),
       pool_clear = (\<lambda>k. (Fulfilled (), 0)) \<rparr>"

definition fixed_driver :: "unit promise \<Rightarrow> js_error + js_value promise \<Rightarrow> end_result \<Rightarrow> pg_driver" where
  "fixed_driver connecting answer ending =
     \<lparr> has_native = False,
       connect = (\<lambda>native opts k. connecting),
       client_query = (\<lambda>c text. answer),
       client_end = (\<lambda>c. ending) \<rparr>"

section \<open>Facts about the operations\<close>

lemma releases_append: "releases (xs @ ys) = releases xs @ releases ys"
  by (induction xs rule: releases.induct) simp_all


lemma call_logger_returns:
  "returns f \<Longrightarrow> snd (call_logger f m msg args) = None"
  by (cases f rule: returns.cases) (simp_all add: call_logger_def)

lemma call_logger_returns_effect:
  "returns f \<Longrightarrow> \<exists>k. fst (call_logger f m msg args) = [LoggerCall k msg args]"
  by (cases f rule: returns.cases) (simp_all add: call_logger_def)

lemma on_acquired_client:
  "\<not> instanceof_Error client \<Longrightarrow> on_acquired client s = (Fulfilled client, s)"
  by (cases client) (simp_all add: on_acquired_def)

lemma on_acquired_sentinel:
  "fst (on_acquired (JErr e) s) =
     Rejected (case snd (call_logger (error (logger s)) ''error''
                            ''Couldn't acquire connection to %j'' [pgOptions s]) of
                 None \<Rightarrow> e | Some e' \<Rightarrow> e')"
  by (simp add: on_acquired_def split: prod.splits)

lemma acquire_then:
  assumes "pool_acquire eng priority (pool p) = (yielded, e1)"
  shows "acquire eng priority p =
           then_p yielded on_acquired (p\<lparr>pool := e1, trace := trace p @ [EngineAcquire priority]\<rparr>)"
  using assms by (simp add: acquire_def engine_acquire_call_def)

lemma counting_acquire: "pool_acquire (counting_engine yielded) priority k = (yielded, Suc k)"
  by (simp add: counting_engine_def)

lemma PgPool_no_options:
  "PgPool (counting_engine yielded) drv rnd Map.empty =
     \<lparr> name = JStr (''pgPool-'' @ rnd), pgOptions = Undefined, poolOptions = Undefined,
       logger = \<lparr> log = noop, debug = noop, info = noop, warn = noop, error = noop \<rparr>,
       pool = 0, trace = [] \<rparr>"
  by (simp add: PgPool_def pick_def get_prop_def injectLogger_def logger_method_def
        counting_engine_def)

subsection \<open>Acquire\<close>




subsection \<open>The factory's retry ceiling\<close>







subsection \<open>Query\<close>





text \<open>
  Claim C9. \<open>query\<close> does not test the value the engine yields. When that value is the
  factory's \<open>Error\<close> sentinel, the call of \<open>.query\<close> on it throws inside the handler, \<open>query\<close>
  rejects with that failure, neither handler that releases has been attached, and the
  trace holds the acquire only: the engine's state stays the one the acquire left, and
  nothing is released. (\<open>acquire\<close>, on the same engine, calls the logger and rejects with
  the sentinel itself, or with what the logger's call threw.)
\<close>

theorem query_sentinel_not_released:
  assumes "pool_acquire eng Undefined (pool p) = (Fulfilled (JErr e), e1)"
  shows "query eng drv qs p =
           (Rejected (TypeError ''client.query is not a function''),
            p\<lparr>pool := e1, trace := trace p @ [EngineAcquire Undefined]\<rparr>)
       \<and> releases (trace (snd (query eng drv qs p))) = releases (trace p)
       \<and> fst (acquire eng Undefined p) =
           Rejected (case snd (call_logger (error (logger p)) ''error''
                                  ''Couldn't acquire connection to %j'' [pgOptions p]) of
                       None \<Rightarrow> e | Some e' \<Rightarrow> e')
       \<and> (returns (error (logger p)) \<longrightarrow> fst (acquire eng Undefined p) = Rejected e)"
  using assms
  by (simp add: query_def acquire_def on_acquired_sentinel engine_acquire_call_def then_p_def
        releases_append call_logger_returns)

theorem query_sentinel_not_released_witness:
  "fst (query (counting_engine (Fulfilled (JErr (new_Error ''CONN_FAILED''))))
          (fixed_driver (Rejected (new_Error ''ECONNREFUSED'')) (Inr Pending) EndSilent)
          (JStr ''SELECT 1;'')
          (PgPool (counting_engine (Fulfilled (JErr (new_Error ''CONN_FAILED''))))
             (fixed_driver (Rejected (new_Error ''ECONNREFUSED'')) (Inr Pending) EndSilent)
             ''0'' Map.empty))
     = Rejected (JsError ''TypeError'' ''client.query is not a function'')
   \<and> pool (snd (query (counting_engine (Fulfilled (JErr (new_Error ''CONN_FAILED''))))
          (fixed_driver (Rejected (new_Error ''ECONNREFUSED'')) (Inr Pending) EndSilent)
          (JStr ''SELECT 1;'')
          (PgPool (counting_engine (Fulfilled (JErr (new_Error ''CONN_FAILED''))))
             (fixed_driver (Rejected (new_Error ''ECONNREFUSED'')) (Inr Pending) EndSilent)
             ''0'' Map.empty)))
     = 1
   \<and> releases (trace (snd (query (counting_engine (Fulfilled (JErr (new_Error ''CONN_FAILED''))))
          (fixed_driver (Rejected (new_Error ''ECONNREFUSED'')) (Inr Pending) EndSilent)
          (JStr ''SELECT 1;'')
          (PgPool (counting_engine (Fulfilled (JErr (new_Error ''CONN_FAILED''))))
             (fixed_driver (Rejected (new_Error ''ECONNREFUSED'')) (Inr Pending) EndSilent)
             ''0'' Map.empty))))
     = []
   \<and> fst (acquire (counting_engine (Fulfilled (JErr (new_Error ''CONN_FAILED'')))) Undefined
          (PgPool (counting_engine (Fulfilled (JErr (new_Error ''CONN_FAILED''))))
             (fixed_driver (Rejected (new_Error ''ECONNREFUSED'')) (Inr Pending) EndSilent)
             ''0'' Map.empty))
     = Rejected (JsError ''Error'' ''CONN_FAILED'')"
proof -
  let ?eng = "counting_engine (Fulfilled (JErr (new_Error ''CONN_FAILED'')))"
  let ?drv = "fixed_driver (Rejected (new_Error ''ECONNREFUSED'')) (Inr Pending) EndSilent"
  have h: "pool_acquire ?eng Undefined (pool (PgPool ?eng ?drv ''0'' Map.empty))
             = (Fulfilled (JErr (new_Error ''CONN_FAILED'')), 1)"
    by (simp add: counting_acquire PgPool_no_options)
  have r: "returns (error (logger (PgPool ?eng ?drv ''0'' Map.empty)))"
    by (simp add: PgPool_no_options noop_def)
  note t = query_sentinel_not_released[OF h, of ?drv "JStr ''SELECT 1;''"]
  have q: "query ?eng ?drv (JStr ''SELECT 1;'') (PgPool ?eng ?drv ''0'' Map.empty)
             = (Rejected (JsError ''TypeError'' ''client.query is not a function''),
                (PgPool ?eng ?drv ''0'' Map.empty)\<lparr>pool := 1, trace := [EngineAcquire Undefined]\<rparr>)"
    using t[THEN conjunct1] by (simp add: PgPool_no_options TypeError_def)
  have a: "fst (acquire ?eng Undefined (PgPool ?eng ?drv ''0'' Map.empty))
             = Rejected (JsError ''Error'' ''CONN_FAILED'')"
    using t[THEN conjunct2, THEN conjunct2, THEN conjunct2, THEN mp, OF r]
    by (simp only: new_Error_def)
  from q a show ?thesis by simp
qed

subsection \<open>Destroying a client\<close>

text \<open>
  Claim C8, as amended. With a logger whose \<open>error\<close> method returns when called (the
  default no-op included), for every value handed to it, every behaviour of \<open>client.end\<close>
  and every state of the pool, the promise of the factory's \<open>destroy\<close> is never rejected:
  it is fulfilled when \<open>client.end\<close> calls back and pending otherwise. When \<open>client.end\<close>
  throws, the promise stays pending and the only effect besides the call is the logging of
  the failure.
\<close>

theorem destroy_never_rejects:
  assumes "returns (error lg)"
  shows "fst (destroy_client eng drv lg client e) \<noteq> Rejected err
       \<and> (\<forall>thrown. call_end drv client = Inl thrown \<longrightarrow>
            fst (destroy_client eng drv lg client e) = Pending
          \<and> (\<exists>k. snd (destroy_client eng drv lg client e) =
                 end_effect client @
                 [LoggerCall k ''Failed to destroy connection'' [JErr thrown]]))
       \<and> (call_end drv client = Inr CalledNow \<or> call_end drv client = Inr CalledLater \<longrightarrow>
            fst (destroy_client eng drv lg client e) = Fulfilled ())"
proof -
  obtain k where k: "error lg = JFun k Returns"
    using assms by (cases "error lg" rule: returns.cases) simp_all
  have c: "call_logger (error lg) m msg args = ([LoggerCall k msg args], None)" for m msg args
    by (simp add: k call_logger_def)
  have r: "resolved_by cb \<noteq> Rejected err" for cb
    by (cases cb) simp_all
  show ?thesis
    by (auto simp add: destroy_client_def c r split: sum.splits prod.splits option.splits)
qed

theorem destroy_never_rejects_witness:
  "destroy_client (counting_engine Pending)
      (fixed_driver (Fulfilled ()) (Inr Pending) (EndThrows (new_Error ''socket closed'')))
      (injectLogger (JObj [(''error'', JFun 1 Returns)])) (JClient 3) 2
     = (Pending, [ClientEnd 3,
          LoggerCall 1 ''Failed to destroy connection'' [JErr (new_Error ''socket closed'')]])
   \<and> fst (destroy_client (counting_engine Pending)
      (fixed_driver (Fulfilled ()) (Inr Pending) EndCallsBackLater)
      (injectLogger (JObj [(''log'', JNum 5)])) (JClient 3) 2)
     = Fulfilled ()"
proof -
  let ?eng = "counting_engine Pending"
  let ?throws = "fixed_driver (Fulfilled ()) (Inr Pending) (EndThrows (new_Error ''socket closed''))"
  let ?closes = "fixed_driver (Fulfilled ()) (Inr Pending) EndCallsBackLater"
  let ?lg1 = "injectLogger (JObj [(''error'', JFun 1 Returns)])"
  let ?lg2 = "injectLogger (JObj [(''log'', JNum 5)])"
  have r1: "returns (error ?lg1)"
    by (simp add: injectLogger_def logger_method_def)
  have r2: "returns (error ?lg2)"
    by (simp add: injectLogger_def logger_method_def noop_def)
  have a: "call_end ?throws (JClient 3) = Inl (new_Error ''socket closed'')"
    by (simp add: fixed_driver_def)
  have b: "call_end ?closes (JClient 3) = Inr CalledNow \<or> call_end ?closes (JClient 3) = Inr CalledLater"
    by (simp add: fixed_driver_def)
  note t = destroy_never_rejects[OF r1, of ?eng ?throws "JClient 3" 2,
             THEN conjunct2, THEN conjunct1, rule_format, OF a]
  have x: "destroy_client ?eng ?throws ?lg1 (JClient 3) 2
             = (Pending, [ClientEnd 3,
                  LoggerCall 1 ''Failed to destroy connection'' [JErr (new_Error ''socket closed'')]])"
    using t by (simp add: destroy_client_def fixed_driver_def injectLogger_def logger_method_def
                  call_logger_def)
  note y = destroy_never_rejects[OF r2, of ?eng ?closes "JClient 3" 2,
             THEN conjunct2, THEN conjunct2, THEN mp, OF b]
  from x y show ?thesis by (rule conjI)
qed

text \<open>
  The claim as stated fails when the logger's \<open>error\<close> method cannot be called: with the
  logger \<open>{error: 5}\<close> and a \<open>client.end\<close> that throws, the call in the \<open>catch\<close> block throws
  out of the executor and the promise is rejected.
\<close>

theorem destroy_never_rejects_counterexample:
  "destroy_client (counting_engine Pending)
      (fixed_driver (Fulfilled ()) (Inr Pending) (EndThrows (new_Error ''socket closed'')))
      (injectLogger (JObj [(''error'', JNum 5)])) (JClient 3) 2
     = (Rejected (JsError ''TypeError'' ''this.logger.error is not a function''), [ClientEnd 3])"
  by (simp add: destroy_client_def fixed_driver_def injectLogger_def logger_method_def
        call_logger_def TypeError_def)

subsection \<open>The constructor\<close>

text \<open>
  Claim C10. The constructor reads the keys \<open>name\<close>, \<open>pgOptions\<close>, \<open>poolOptions\<close> and
  \<open>logger\<close> only: two options objects that agree on these four keys give, with the same
  collaborators and the same random draw, the same pool object, whatever other keys they
  hold. Every operation is a function of the pool object, so it gives the same on both.
\<close>

theorem PgPool_other_keys_ignored:
  assumes "\<forall>k \<in> {''name'', ''pgOptions'', ''poolOptions'', ''logger''}. o1 k = o2 k"
  shows "PgPool eng drv rnd o1 = PgPool eng drv rnd o2
       \<and> (\<forall>operation. operation (PgPool eng drv rnd o1) = operation (PgPool eng drv rnd o2))"
proof -
  have "pick o1 [''name'', ''pgOptions'', ''poolOptions'', ''logger'']
      = pick o2 [''name'', ''pgOptions'', ''poolOptions'', ''logger'']"
    using assms by (auto simp add: pick_def fun_eq_iff)
  then show ?thesis by (simp add: PgPool_def)
qed

theorem PgPool_other_keys_ignored_witness:
  "[''name'' \<mapsto> JStr ''testPool'', ''verbose'' \<mapsto> JBool True] ''verbose''
     \<noteq> [''name'' \<mapsto> JStr ''testPool''] ''verbose''
   \<and> PgPool (counting_engine Pending) (fixed_driver Pending (Inr Pending) EndSilent) ''0''
        [''name'' \<mapsto> JStr ''testPool'', ''verbose'' \<mapsto> JBool True]
     = PgPool (counting_engine Pending) (fixed_driver Pending (Inr Pending) EndSilent) ''0''
        [''name'' \<mapsto> JStr ''testPool'']
   \<and> getName (PgPool (counting_engine Pending) (fixed_driver Pending (Inr Pending) EndSilent) ''0''
        [''name'' \<mapsto> JStr ''testPool'', ''verbose'' \<mapsto> JBool True])
     = JStr ''testPool''"
proof -
  let ?o1 = "[''name'' \<mapsto> JStr ''testPool'', ''verbose'' \<mapsto> JBool True]"
  let ?o2 = "[''name'' \<mapsto> JStr ''testPool'']"
  have h: "\<forall>k \<in> {''name'', ''pgOptions'', ''poolOptions'', ''logger''}. ?o1 k = ?o2 k"
    by simp
  have n: "getName (PgPool (counting_engine Pending) (fixed_driver Pending (Inr Pending) EndSilent)
                      ''0'' ?o1)
             = JStr ''testPool''"
    by (simp add: getName_def PgPool_def pick_def get_prop_def Let_def)
  have d: "?o1 ''verbose'' \<noteq> ?o2 ''verbose''"
    by simp
  from d PgPool_other_keys_ignored[OF h, THEN conjunct1,
         of "counting_engine Pending" "fixed_driver Pending (Inr Pending) EndSilent" "''0''"] n
  show ?thesis by (intro conjI)
qed

section \<open>Facts about the engine of the specification\<close>

lemma pool_then_p_on_acquired: "pool (snd (then_p y on_acquired p)) = pool p"
  by (simp add: then_p_def on_acquired_def split: promise.splits js_value.splits prod.splits)

lemma logger_then_p_on_acquired:
  "logger (snd (then_p y on_acquired p)) = logger p
   \<and> pgOptions (snd (then_p y on_acquired p)) = pgOptions p"
  by (simp add: then_p_def on_acquired_def split: promise.splits js_value.splits prod.splits)

lemma pool_step: "pool (step x p) = engine_step x (pool p)"
  by (cases x)
     (simp_all add: acquire_def release_def engine_acquire_call_def engine_release_call_def
        spec_engine_def pool_then_p_on_acquired split: prod.splits)

lemma logger_step: "logger (step x p) = logger p \<and> pgOptions (step x p) = pgOptions p"
  by (cases x)
     (simp_all add: acquire_def release_def engine_acquire_call_def engine_release_call_def
        logger_then_p_on_acquired split: prod.splits)


lemma engine_promise_none: "outcomes_of q s = [] \<Longrightarrow> engine_promise q s = Pending"
  by (simp add: engine_promise_def)

lemma engine_promise_one: "outcomes_of q s = [out] \<Longrightarrow> engine_promise q s = out"
  by (simp add: engine_promise_def)

lemma acquire_promise_eq:
  "acquire_promise q p =
     fst (then_p (engine_promise q (pool p)) on_acquired
            (p\<lparr>trace := trace p @ [EngineAcquire Undefined]\<rparr>))"
proof -
  have "pool_acquire (engine_view q) Undefined (pool p) = (engine_promise q (pool p), pool p)"
    by (simp add: engine_view_def)
  from acquire_then[OF this] show ?thesis
    by (simp add: acquire_promise_def)
qed

lemma acquire_promise_pending:
  "outcomes_of q (pool p) = [] \<Longrightarrow> acquire_promise q p = Pending"
  by (simp add: acquire_promise_eq engine_promise_none then_p_def)

lemma acquire_promise_rejected:
  "outcomes_of q (pool p) = [Rejected e] \<Longrightarrow> acquire_promise q p = Rejected e"
  by (simp add: acquire_promise_eq engine_promise_one then_p_def)


lemma config_give: "config (give r s) = config s"
  by (simp add: give_def split: option.splits)

lemma config_engine_step: "config (engine_step x s) = config s"
  by (cases x)
     (auto simp add: engine_acquire_def engine_release_def engine_create_done_def
        engine_timeout_def config_give Let_def split: list.splits js_value.splits sum.splits option.splits)

lemma config_run: "config (pool (run xs p)) = config (pool p)"
  by (induction xs arbitrary: p) (simp_all add: pool_step config_engine_step)

lemma next_waiting_in: "next_waiting ws = Some w \<Longrightarrow> w \<in> set ws"
  by (induction ws arbitrary: w) (auto split: option.splits if_splits)

lemma fst_set_remove1:
  "distinct (map fst ws) \<Longrightarrow> w \<in> set ws \<Longrightarrow> fst ` set (remove1 w ws) = fst ` set ws - {fst w}"
  by (induction ws) (auto simp add: image_iff)

lemma distinct_fst_remove1: "distinct (map fst ws) \<Longrightarrow> distinct (map fst (remove1 w ws))"
  by (induction ws) (auto simp add: image_iff dest: notin_set_remove1)

lemma wf_give:
  assumes "requests_wf s"
  shows "requests_wf (give r s)"
proof (cases "next_waiting (waiting s)")
  case None
  with assms show ?thesis by (simp add: give_def requests_wf_def outcomes_of_def)
next
  case (Some w)
  then have w: "w \<in> set (waiting s)" by (rule next_waiting_in)
  have d: "distinct (map fst (waiting s))" using assms by (simp add: requests_wf_def)
  have ids: "fst ` set (remove1 w (waiting s)) = fst ` set (waiting s) - {fst w}"
    using d w by (rule fst_set_remove1)
  have g: "give r s = s\<lparr>waiting := remove1 w (waiting s), active := active s @ [r],
              settled := settled s @ [(fst w, Fulfilled (JClient r))]\<rparr>"
    using Some by (simp add: give_def)
  show ?thesis
    unfolding g requests_wf_def
    using assms w ids distinct_fst_remove1[OF d, of w]
    by (auto simp add: requests_wf_def outcomes_of_def)
qed

lemma wf_acquire:
  assumes "requests_wf s"
  shows "requests_wf (snd (engine_acquire priority s))"
  using assms
  by (auto simp add: engine_acquire_def requests_wf_def outcomes_of_def Let_def filter_empty_conv
        split: list.splits)

lemma wf_release:
  assumes "requests_wf s"
  shows "requests_wf (snd (engine_release client s))"
proof -
  have "requests_wf (s\<lparr>active := xs\<rparr>)" for xs
    using assms by (simp add: requests_wf_def outcomes_of_def)
  then show ?thesis
    using assms by (auto simp add: engine_release_def wf_give split: js_value.splits)
qed

lemma wf_create_done:
  assumes "requests_wf s"
  shows "requests_wf (engine_create_done i outcome s)"
proof (cases "length (creating s) \<le> i")
  case True
  with assms show ?thesis by (simp add: engine_create_done_def)
next
  case False
  let ?cs = "take i (creating s) @ drop (Suc i) (creating s)"
  let ?s0 = "s\<lparr>creating := ?cs\<rparr>"
  have sub: "set ?cs \<subseteq> set (creating s)"
    by (auto dest: in_set_takeD in_set_dropD)
  have own: "creating s ! i \<in> set (creating s)" using False by simp
  have wf0: "requests_wf ?s0"
    using assms sub by (auto simp add: requests_wf_def outcomes_of_def)
  have settle: "requests_wf (?s0\<lparr>active := xs, settled := settled s @ [(q, out)]\<rparr>)"
    if "creating s ! i = Some q" for q out xs
    using assms sub own that
    by (auto simp add: requests_wf_def outcomes_of_def filter_empty_conv)
  have settle': "requests_wf (?s0\<lparr>settled := settled s @ [(q, out)]\<rparr>)"
    if "creating s ! i = Some q" for q out
    using assms sub own that
    by (auto simp add: requests_wf_def outcomes_of_def filter_empty_conv)
  show ?thesis
    using False wf0 settle settle'
    by (auto simp add: engine_create_done_def Let_def wf_give split: sum.splits option.splits)
qed

lemma wf_timeout:
  assumes "requests_wf s"
  shows "requests_wf (engine_timeout q s)"
  using assms
  by (auto simp add: engine_timeout_def requests_wf_def outcomes_of_def filter_empty_conv
        distinct_map_filter)

lemma wf_engine_step: "requests_wf s \<Longrightarrow> requests_wf (engine_step x s)"
  by (cases x) (simp_all add: wf_acquire wf_release wf_create_done wf_timeout)

lemma wf_engine_create: "requests_wf (engine_create cfg)"
  by (simp add: requests_wf_def engine_create_def)

lemma wf_run: "requests_wf (pool p) \<Longrightarrow> requests_wf (pool (run xs p))"
  by (induction xs arbitrary: p) (simp_all add: pool_step wf_engine_step)

lemma finished_give:
  assumes "finished q s"
  shows "finished q (give r s) \<and> outcomes_of q (give r s) = outcomes_of q s"
proof (cases "next_waiting (waiting s)")
  case None
  with assms show ?thesis by (simp add: give_def finished_def outcomes_of_def)
next
  case (Some w)
  then have "w \<in> set (waiting s)" by (rule next_waiting_in)
  then have "fst w \<noteq> q" using assms by (auto simp add: finished_def)
  moreover have "fst ` set (remove1 w (waiting s)) \<subseteq> fst ` set (waiting s)"
    by (rule image_mono) (rule set_remove1_subset)
  ultimately show ?thesis
    using assms Some by (auto simp add: give_def finished_def outcomes_of_def)
qed

lemma finished_engine_step:
  assumes "finished q s"
  shows "finished q (engine_step x s) \<and> outcomes_of q (engine_step x s) = outcomes_of q s"
proof (cases x)
  case (Acquire priority)
  with assms show ?thesis
    by (auto simp add: engine_acquire_def finished_def outcomes_of_def Let_def split: list.splits)
next
  case (Release client)
  have "finished q (s\<lparr>active := xs\<rparr>) \<and> outcomes_of q (s\<lparr>active := xs\<rparr>) = outcomes_of q s" for xs
    using assms by (simp add: finished_def outcomes_of_def)
  with assms Release show ?thesis
    by (auto simp add: engine_release_def finished_give split: js_value.splits)
next
  case (CreateDone i outcome)
  show ?thesis
  proof (cases "length (creating s) \<le> i")
    case True
    with assms CreateDone show ?thesis by (simp add: engine_create_done_def)
  next
    case False
    let ?cs = "take i (creating s) @ drop (Suc i) (creating s)"
    let ?s0 = "s\<lparr>creating := ?cs\<rparr>"
    have sub: "set ?cs \<subseteq> set (creating s)"
      by (auto dest: in_set_takeD in_set_dropD)
    have own: "creating s ! i \<in> set (creating s)" using False by simp
    then have neq: "creating s ! i \<noteq> Some q" using assms by (auto simp add: finished_def)
    have f0: "finished q ?s0 \<and> outcomes_of q ?s0 = outcomes_of q s"
      using assms sub by (auto simp add: finished_def outcomes_of_def)
    from finished_give[of q ?s0] f0
    have fg: "finished q (give r ?s0) \<and> outcomes_of q (give r ?s0) = outcomes_of q s" for r
      by simp
    show ?thesis
      using False CreateDone neq f0 fg
      by (auto simp add: engine_create_done_def Let_def finished_def outcomes_of_def
            split: sum.splits option.splits)
  qed
next
  case (Timeout q')
  with assms show ?thesis
    by (auto simp add: engine_timeout_def finished_def outcomes_of_def)
qed

lemma finished_run:
  "finished q (pool p) \<Longrightarrow> outcomes_of q (pool (run xs p)) = outcomes_of q (pool p)"
proof (induction xs arbitrary: p)
  case Nil
  then show ?case by simp
next
  case (Cons x xs)
  from finished_engine_step[OF Cons.prems, of x]
  have "finished q (pool (step x p))" and "outcomes_of q (pool (step x p)) = outcomes_of q (pool p)"
    by (simp_all add: pool_step)
  with Cons.IH[of "step x p"] show ?case by simp
qed

lemma length_filter_distinct_fst:
  "distinct (map fst ws) \<Longrightarrow> q \<in> fst ` set ws \<Longrightarrow>
     Suc (length (filter (\<lambda>w. fst w \<noteq> q) ws)) = length ws"
proof (induction ws)
  case Nil
  then show ?case by simp
next
  case (Cons w ws)
  show ?case
  proof (cases "fst w = q")
    case True
    then have "q \<notin> fst ` set ws" using Cons.prems(1) by auto
    then have "filter (\<lambda>w. fst w \<noteq> q) ws = ws" by (auto simp add: filter_id_conv)
    with True show ?thesis by simp
  next
    case False
    with Cons show ?thesis by auto
  qed
qed


lemma Suc_length_remove1: "x \<in> set xs \<Longrightarrow> Suc (length (remove1 x xs)) = length xs"
  by (induction xs) auto

lemma size_give: "engine_size (give r s) = Suc (engine_size s)"
  by (simp add: give_def engine_size_def split: option.splits)

lemma size_engine_step:
  assumes "engine_size s \<le> cfg_max (config s)"
  shows "engine_size (engine_step x s) \<le> cfg_max (config s)"
proof (cases x)
  case (Acquire priority)
  with assms show ?thesis
    by (auto simp add: engine_acquire_def engine_size_def Let_def split: list.splits)
next
  case (Release client)
  show ?thesis
  proof (cases "\<exists>r. client = JClient r \<and> r \<in> set (active s)")
    case True
    then obtain r where r: "client = JClient r" "r \<in> set (active s)" by blast
    have "Suc (length (remove1 r (active s))) = length (active s)"
      using r(2) by (rule Suc_length_remove1)
    then have "Suc (engine_size (s\<lparr>active := remove1 r (active s)\<rparr>)) = engine_size s"
      by (simp add: engine_size_def)
    then show ?thesis using assms r Release by (simp add: engine_release_def size_give)
  next
    case False
    with assms Release show ?thesis
      by (auto simp add: engine_release_def split: js_value.splits)
  qed
next
  case (CreateDone i outcome)
  show ?thesis
  proof (cases "length (creating s) \<le> i")
    case True
    with assms CreateDone show ?thesis by (simp add: engine_create_done_def)
  next
    case False
    let ?s0 = "s\<lparr>creating := take i (creating s) @ drop (Suc i) (creating s)\<rparr>"
    have "Suc (engine_size ?s0) = engine_size s"
      using False by (simp add: engine_size_def)
    with assms False CreateDone show ?thesis
      by (auto simp add: engine_create_done_def Let_def size_give
            split: sum.splits option.splits) (simp_all add: engine_size_def)
  qed
next
  case (Timeout q)
  with assms show ?thesis by (auto simp add: engine_timeout_def engine_size_def)
qed

lemma run_invariant:
  assumes "engine_size (pool p) \<le> cfg_max (config (pool p))"
  shows "engine_size (pool (run xs p)) \<le> cfg_max (config (pool p))
       \<and> config (pool (run xs p)) = config (pool p)"
  using assms
proof (induction xs arbitrary: p)
  case Nil
  then show ?case by simp
next
  case (Cons x xs)
  have "engine_size (pool (step x p)) \<le> cfg_max (config (pool (step x p)))"
    using Cons.prems by (simp add: pool_step size_engine_step config_engine_step)
  from Cons.IH[OF this] show ?case by (simp add: pool_step config_engine_step)
qed


text \<open>
  The engine gives the counters the repository's tests expect (test/pg_connection_pool.js,
  lines 22 to 58 and 249 to 266): as available, size and pending, a pool of \<open>min\<close> 0 and
  \<open>max\<close> 1 shows 0, 0, 0 when built; 0, 1, 0 once its first acquire is served; available 1
  after the release; 0, 1, 0 after the next acquire; and 0, 1, 1 while a further acquire
  waits. A pool of \<open>min\<close> 2 shows size 2 and available 0 as soon as it is built.
\<close>

lemma engine_agrees_with_tests:
  "(let p = fresh_pool \<lparr>cfg_min = 0, cfg_max = 1, cfg_acquireTimeout = 0\<rparr> in
      map (\<lambda>xs. (availableCount spec_engine (run xs p), getPoolSize spec_engine (run xs p),
                  pendingCount spec_engine (run xs p)))
        [[],
         [Acquire Undefined, CreateDone 0 (Inr 7)],
         [Acquire Undefined, CreateDone 0 (Inr 7), Release (JClient 7)],
         [Acquire Undefined, CreateDone 0 (Inr 7), Release (JClient 7), Acquire Undefined],
         [Acquire Undefined, CreateDone 0 (Inr 7), Release (JClient 7), Acquire Undefined,
          Acquire Undefined]])
     = [(0, 0, 0), (0, 1, 0), (1, 1, 0), (0, 1, 0), (0, 1, 1)]
   \<and> status spec_engine (fresh_pool \<lparr>cfg_min = 2, cfg_max = 4, cfg_acquireTimeout = 0\<rparr>)
     = \<lparr> status_name = JStr ''pgPool-0'', status_size = 2, status_available = 0,
         status_pending = 0 \<rparr>"
  by code_simp

subsection \<open>The counters\<close>

text \<open>
  Claim C1, as amended. For a pool built with \<open>min \<le> max\<close>, after every sequence of
  acquires, releases, answers of the factory and timeouts, the counters read through
  \<open>getPoolSize\<close> and \<open>availableCount\<close> satisfy: available + active + being created = size,
  and available \<le> size \<le> max; so available + active = size whenever no creation is in
  flight. (The size counts the resources being created, section 3 of the spec.)
\<close>

theorem counters_invariant:
  assumes "pool p0 = engine_create cfg" and "cfg_min cfg \<le> cfg_max cfg"
  shows "availableCount spec_engine (run xs p0) + engine_borrowed (pool (run xs p0))
           + length (creating (pool (run xs p0))) = getPoolSize spec_engine (run xs p0)
       \<and> availableCount spec_engine (run xs p0) \<le> getPoolSize spec_engine (run xs p0)
       \<and> getPoolSize spec_engine (run xs p0) \<le> cfg_max cfg
       \<and> (creating (pool (run xs p0)) = [] \<longrightarrow>
            availableCount spec_engine (run xs p0) + engine_borrowed (pool (run xs p0))
              = getPoolSize spec_engine (run xs p0))"
proof -
  have "engine_size (pool p0) \<le> cfg_max (config (pool p0))"
    using assms by (simp add: engine_create_def engine_size_def)
  from run_invariant[OF this, of xs] have "engine_size (pool (run xs p0)) \<le> cfg_max cfg"
    using assms(1) by (simp add: engine_create_def)
  then show ?thesis
    by (simp add: availableCount_def getPoolSize_def spec_engine_def engine_available_def
          engine_borrowed_def engine_size_def)
qed


theorem counters_invariant_witness:
  "availableCount spec_engine
      (run [CreateDone 0 (Inr 1), CreateDone 0 (Inr 2), Acquire Undefined]
         (fresh_pool \<lparr>cfg_min = 2, cfg_max = 4, cfg_acquireTimeout = 0\<rparr>))
   + engine_borrowed (pool
      (run [CreateDone 0 (Inr 1), CreateDone 0 (Inr 2), Acquire Undefined]
         (fresh_pool \<lparr>cfg_min = 2, cfg_max = 4, cfg_acquireTimeout = 0\<rparr>)))
   + length (creating (pool
      (run [CreateDone 0 (Inr 1), CreateDone 0 (Inr 2), Acquire Undefined]
         (fresh_pool \<lparr>cfg_min = 2, cfg_max = 4, cfg_acquireTimeout = 0\<rparr>))))
   = getPoolSize spec_engine
      (run [CreateDone 0 (Inr 1), CreateDone 0 (Inr 2), Acquire Undefined]
         (fresh_pool \<lparr>cfg_min = 2, cfg_max = 4, cfg_acquireTimeout = 0\<rparr>))
   \<and> getPoolSize spec_engine
      (run [CreateDone 0 (Inr 1), CreateDone 0 (Inr 2), Acquire Undefined]
         (fresh_pool \<lparr>cfg_min = 2, cfg_max = 4, cfg_acquireTimeout = 0\<rparr>)) \<le> 4"
proof -
  let ?cfg = "\<lparr>cfg_min = 2, cfg_max = 4, cfg_acquireTimeout = 0\<rparr>"
  have h1: "pool (fresh_pool ?cfg) = engine_create ?cfg"
    by (simp add: fresh_pool_def)
  have h2: "cfg_min ?cfg \<le> cfg_max ?cfg"
    by simp
  have m: "cfg_max ?cfg = 4"
    by simp
  note t = counters_invariant[OF h1 h2, of "[CreateDone 0 (Inr 1), CreateDone 0 (Inr 2), Acquire Undefined]"]
  from t[THEN conjunct1] t[THEN conjunct2, THEN conjunct2, THEN conjunct1, unfolded m]
  show ?thesis by (rule conjI)
qed

text \<open>
  The claim as stated fails while a creation is in flight: on a pool of \<open>min\<close> 0 and \<open>max\<close> 1,
  after one acquire the size is 1 and nothing is available or checked out.
\<close>

theorem counters_counterexample:
  "availableCount spec_engine
      (run [Acquire Undefined] (fresh_pool \<lparr>cfg_min = 0, cfg_max = 1, cfg_acquireTimeout = 0\<rparr>))
   + engine_borrowed
      (pool (run [Acquire Undefined] (fresh_pool \<lparr>cfg_min = 0, cfg_max = 1, cfg_acquireTimeout = 0\<rparr>)))
   \<noteq> getPoolSize spec_engine
      (run [Acquire Undefined] (fresh_pool \<lparr>cfg_min = 0, cfg_max = 1, cfg_acquireTimeout = 0\<rparr>))"
  by code_simp

subsection \<open>Release of a resource that is not a member\<close>

text \<open>
  Claim C6. A release with no argument (the value \<open>undefined\<close>), or with any value that is
  not a resource currently Active in this pool, is rejected with the error whose message
  is "Resource not currently part of this pool"; the engine's state, and with it the size,
  the available count and the pending count, are unchanged.
\<close>

theorem release_non_member:
  assumes "\<forall>r. client = JClient r \<longrightarrow> r \<notin> set (active (pool p))"
  shows "fst (release spec_engine Undefined p)
           = Rejected (new_Error ''Resource not currently part of this pool'')
       \<and> pool (snd (release spec_engine Undefined p)) = pool p
       \<and> fst (release spec_engine client p)
           = Rejected (new_Error ''Resource not currently part of this pool'')
       \<and> pool (snd (release spec_engine client p)) = pool p
       \<and> getPoolSize spec_engine (snd (release spec_engine client p)) = getPoolSize spec_engine p
       \<and> availableCount spec_engine (snd (release spec_engine client p)) = availableCount spec_engine p
       \<and> pendingCount spec_engine (snd (release spec_engine client p)) = pendingCount spec_engine p"
  using assms
  by (cases client)
     (simp_all add: release_def engine_release_call_def spec_engine_def engine_release_def
        not_member_def getPoolSize_def availableCount_def pendingCount_def)

theorem release_non_member_witness:
  "fst (release spec_engine Undefined
          (run [Acquire Undefined, CreateDone 0 (Inr 7)]
             (fresh_pool \<lparr>cfg_min = 0, cfg_max = 1, cfg_acquireTimeout = 0\<rparr>)))
     = Rejected (JsError ''Error'' ''Resource not currently part of this pool'')
   \<and> fst (release spec_engine (JClient 8)
          (run [Acquire Undefined, CreateDone 0 (Inr 7)]
             (fresh_pool \<lparr>cfg_min = 0, cfg_max = 1, cfg_acquireTimeout = 0\<rparr>)))
     = Rejected (JsError ''Error'' ''Resource not currently part of this pool'')
   \<and> getPoolSize spec_engine (snd (release spec_engine (JClient 8)
          (run [Acquire Undefined, CreateDone 0 (Inr 7)]
             (fresh_pool \<lparr>cfg_min = 0, cfg_max = 1, cfg_acquireTimeout = 0\<rparr>))))
     = 1"
proof -
  let ?p = "run [Acquire Undefined, CreateDone 0 (Inr 7)]
              (fresh_pool \<lparr>cfg_min = 0, cfg_max = 1, cfg_acquireTimeout = 0\<rparr>)"
  have a: "active (pool ?p) = [7]"
    by code_simp
  have z: "getPoolSize spec_engine ?p = 1"
    by code_simp
  have h: "\<forall>r. JClient 8 = JClient r \<longrightarrow> r \<notin> set (active (pool ?p))"
    unfolding a by simp
  note t = release_non_member[OF h]
  note u = t[THEN conjunct1, unfolded new_Error_def]
  note v = t[THEN conjunct2, THEN conjunct2, THEN conjunct1, unfolded new_Error_def]
  note w = t[THEN conjunct2, THEN conjunct2, THEN conjunct2, THEN conjunct2, THEN conjunct1]
  from u v trans[OF w z] show ?thesis by (intro conjI)
qed

subsection \<open>Timeout of a pending acquire\<close>

text \<open>
  The promise of the module's \<open>acquire\<close> read later is the one \<open>acquire\<close> returned: at the
  call, the promise \<open>acquire\<close> returns for the request it issues is the promise of that
  request in the state the call leaves.
\<close>

lemma acquire_promise_at_call:
  assumes "requests_wf (pool p)"
  shows "acquire_promise (next_request (pool p)) (step (Acquire priority) p)
           = fst (acquire spec_engine priority p)"
proof -
  let ?s = "pool p"
  let ?q = "next_request ?s"
  have none: "outcomes_of ?q ?s = []"
    using assms by (auto simp add: requests_wf_def outcomes_of_def filter_empty_conv)
  obtain y s' where e: "engine_acquire priority ?s = (y, s')"
    by (cases "engine_acquire priority ?s")
  have a: "pool_acquire spec_engine priority ?s = (y, s')"
    by (simp add: spec_engine_def e)
  have st: "pool (step (Acquire priority) p) = s'"
    by (simp only: pool_step engine_step.simps e snd_conv)
  have lg: "logger (step (Acquire priority) p) = logger p"
       "pgOptions (step (Acquire priority) p) = pgOptions p"
    using logger_step[of "Acquire priority" p] by simp_all
  show ?thesis
  proof (cases "idle ?s")
    case Nil
    with e have y: "y = Pending" and o: "outcomes_of ?q s' = outcomes_of ?q ?s"
      by (auto simp add: engine_acquire_def Let_def outcomes_of_def split: if_splits)
    have "acquire_promise ?q (step (Acquire priority) p) = Pending"
      by (rule acquire_promise_pending) (simp only: st o none)
    moreover have "fst (acquire spec_engine priority p) = Pending"
      by (simp add: acquire_then[OF a] y then_p_def)
    ultimately show ?thesis by simp
  next
    case (Cons r rs)
    with e have y: "y = Fulfilled (JClient r)"
      and o: "outcomes_of ?q s' = outcomes_of ?q ?s @ [Fulfilled (JClient r)]"
      by (auto simp add: engine_acquire_def Let_def outcomes_of_def)
    have "engine_promise ?q (pool (step (Acquire priority) p)) = Fulfilled (JClient r)"
      by (rule engine_promise_one) (simp only: st o none append_Nil)
    then have "acquire_promise ?q (step (Acquire priority) p) = Fulfilled (JClient r)"
      by (simp add: acquire_promise_eq then_p_def on_acquired_client)
    moreover have "fst (acquire spec_engine priority p) = Fulfilled (JClient r)"
      by (simp add: acquire_then[OF a] y then_p_def on_acquired_client)
    ultimately show ?thesis by simp
  qed
qed

text \<open>
  Claim C7. In a pool with an acquire timeout, take any request that is in the queue of
  pending requests, in any state the pool can reach; the promise the module's \<open>acquire\<close>
  returned for it is pending. When its timeout elapses the request is given the outcome
  TimeoutError, its first and only one, and the promise of the module's \<open>acquire\<close> is
  rejected with it; the request leaves the queue, so the pending count drops by one; and
  whatever happens afterwards (releases, creations, further acquires and timeouts) the
  request is given no other outcome and the promise of \<open>acquire\<close> stays rejected with the
  TimeoutError.
\<close>

theorem timeout_resolves_once:
  assumes "pool p0 = engine_create cfg" and "0 < cfg_acquireTimeout cfg"
      and "q \<in> fst ` set (waiting (pool (run xs p0)))"
  shows "acquire_promise q (run xs p0) = Pending
       \<and> outcomes_of q (pool (step (Timeout q) (run xs p0))) = [Rejected timeout_error]
       \<and> err_name timeout_error = ''TimeoutError''
       \<and> acquire_promise q (step (Timeout q) (run xs p0)) = Rejected timeout_error
       \<and> q \<notin> fst ` set (waiting (pool (step (Timeout q) (run xs p0))))
       \<and> Suc (pendingCount spec_engine (step (Timeout q) (run xs p0)))
           = pendingCount spec_engine (run xs p0)
       \<and> (\<forall>ys. outcomes_of q (pool (run ys (step (Timeout q) (run xs p0))))
                 = [Rejected timeout_error]
               \<and> acquire_promise q (run ys (step (Timeout q) (run xs p0)))
                 = Rejected timeout_error)"
proof -
  let ?s = "pool (run xs p0)"
  let ?p' = "step (Timeout q) (run xs p0)"
  have wf: "requests_wf ?s" using assms(1) by (simp add: wf_run wf_engine_create)
  have t: "cfg_acquireTimeout (config ?s) \<noteq> 0"
    using assms(1,2) by (simp add: config_run engine_create_def)
  have q: "q < next_request ?s" "outcomes_of q ?s = []" "Some q \<notin> set (creating ?s)"
    and d: "distinct (map fst (waiting ?s))"
    using wf assms(3) by (auto simp add: requests_wf_def)
  have b: "acquire_promise q (run xs p0) = Pending"
    using q(2) by (rule acquire_promise_pending)
  have p': "pool ?p' = ?s\<lparr>waiting := filter (\<lambda>w. fst w \<noteq> q) (waiting ?s),
                           settled := settled ?s @ [(q, Rejected timeout_error)]\<rparr>"
    using t assms(3) by (simp add: engine_timeout_def)
  have o: "outcomes_of q (pool ?p') = [Rejected timeout_error]"
    unfolding p' using q(2) by (simp add: outcomes_of_def)
  have f: "finished q (pool ?p')"
    unfolding p' using q by (auto simp add: finished_def)
  have "Suc (engine_pending (pool ?p')) = engine_pending ?s"
    unfolding p' using length_filter_distinct_fst[OF d assms(3)] by (simp add: engine_pending_def)
  then have n: "Suc (pendingCount spec_engine ?p') = pendingCount spec_engine (run xs p0)"
    by (simp only: pendingCount_def spec_engine_def pool_core.simps)
  have later: "outcomes_of q (pool (run ys ?p')) = [Rejected timeout_error]" for ys
    using finished_run[OF f, of ys] o by simp
  have w: "q \<notin> fst ` set (waiting (pool ?p'))"
    using f unfolding finished_def by blast
  have e: "err_name timeout_error = ''TimeoutError''"
    by (simp add: timeout_error_def)
  have a: "acquire_promise q ?p' = Rejected timeout_error"
    using o by (rule acquire_promise_rejected)
  have a': "acquire_promise q (run ys ?p') = Rejected timeout_error" for ys
    using later[of ys] by (rule acquire_promise_rejected)
  from b o e a w n later a' show ?thesis by blast
qed

theorem timeout_resolves_once_witness:
  "acquire_promise 1 (step (Timeout 1)
      (run [CreateDone 0 (Inr 1), Acquire Undefined, Acquire Undefined]
         (fresh_pool \<lparr>cfg_min = 1, cfg_max = 1, cfg_acquireTimeout = 1\<rparr>)))
     = Rejected (JsError ''TimeoutError'' ''acquire waited past acquireTimeoutMillis'')
   \<and> acquire_promise 1 (run [Release (JClient 1), Timeout 1, Acquire Undefined]
      (step (Timeout 1)
        (run [CreateDone 0 (Inr 1), Acquire Undefined, Acquire Undefined]
           (fresh_pool \<lparr>cfg_min = 1, cfg_max = 1, cfg_acquireTimeout = 1\<rparr>))))
     = Rejected (JsError ''TimeoutError'' ''acquire waited past acquireTimeoutMillis'')
   \<and> outcomes_of 1 (pool (run [Release (JClient 1), Timeout 1, Acquire Undefined]
      (step (Timeout 1)
        (run [CreateDone 0 (Inr 1), Acquire Undefined, Acquire Undefined]
           (fresh_pool \<lparr>cfg_min = 1, cfg_max = 1, cfg_acquireTimeout = 1\<rparr>)))))
     = [Rejected (JsError ''TimeoutError'' ''acquire waited past acquireTimeoutMillis'')]"
proof -
  let ?cfg = "\<lparr>cfg_min = 1, cfg_max = 1, cfg_acquireTimeout = 1\<rparr>"
  let ?xs = "[CreateDone 0 (Inr 1), Acquire Undefined, Acquire Undefined]"
  let ?ys = "[Release (JClient 1), Timeout 1, Acquire Undefined]"
  have h1: "pool (fresh_pool ?cfg) = engine_create ?cfg"
    by (simp add: fresh_pool_def)
  have h2: "0 < cfg_acquireTimeout ?cfg"
    by simp
  have "waiting (pool (run ?xs (fresh_pool ?cfg))) = [(1, 0)]"
    by code_simp
  then have h3: "1 \<in> fst ` set (waiting (pool (run ?xs (fresh_pool ?cfg))))"
    by simp
  note t = timeout_resolves_once[OF h1 h2 h3]
  note l = t[THEN conjunct2, THEN conjunct2, THEN conjunct2, THEN conjunct2, THEN conjunct2,
             THEN conjunct2, THEN spec, of ?ys]
  from t[THEN conjunct2, THEN conjunct2, THEN conjunct2, THEN conjunct1, unfolded timeout_error_def]
       l[THEN conjunct2, unfolded timeout_error_def]
       l[THEN conjunct1, unfolded timeout_error_def]
  show ?thesis by (intro conjI)
qed

subsection \<open>An acquire against an unreachable backend\<close>







end
